theory Spec2Isabelle
  imports Main
begin

section \<open>Python text primitives used by \<open>consolidate_data.py\<close>\<close>

text \<open>
  A Python \<open>str\<close> is modelled as a HOL \<open>string\<close>: each \<open>char\<close> is one code point
  below 256. The input files of the script are FASTA-like sequence files and label files,
  read in text mode; the model takes the decoded text of a file as given. Whitespace is
  what \<open>str.isspace\<close> accepts on these code points (tab, line feed, vertical tab, form
  feed, carriage return, the four separators 28 to 31, space, 133 and 160). The case
  mappings \<open>str.upper\<close> and \<open>str.lower\<close> are modelled on the ASCII letters; every
  other character is left as it is.
\<close>

definition is_space :: "char \<Rightarrow> bool" where
  "is_space c = ((of_char c :: nat) \<in> {9, 10, 11, 12, 13, 28, 29, 30, 31, 32, 133, 160})"

definition ascii_lowercase :: string where
  "ascii_lowercase = ''abcdefghijklmnopqrstuvwxyz''"

definition ascii_uppercase :: string where
  "ascii_uppercase = ''ABCDEFGHIJKLMNOPQRSTUVWXYZ''"

definition upper_char :: "char \<Rightarrow> char" where
  "upper_char c =
     (case map_of (zip ascii_lowercase ascii_uppercase) c of None \<Rightarrow> c | Some d \<Rightarrow> d)"

definition lower_char :: "char \<Rightarrow> char" where
  "lower_char c =
     (case map_of (zip ascii_uppercase ascii_lowercase) c of None \<Rightarrow> c | Some d \<Rightarrow> d)"

text \<open>\<open>s.upper()\<close> and \<open>s.lower()\<close>.\<close>

definition upper :: "string \<Rightarrow> string" where
  "upper s = map upper_char s"

definition lower :: "string \<Rightarrow> string" where
  "lower s = map lower_char s"

text \<open>
  \<open>s.strip()\<close> with no argument: leading and trailing whitespace removed.
\<close>

definition lstrip :: "string \<Rightarrow> string" where
  "lstrip s = dropWhile is_space s"

definition rstrip :: "string \<Rightarrow> string" where
  "rstrip s = rev (dropWhile is_space (rev s))"

definition strip :: "string \<Rightarrow> string" where
  "strip s = rstrip (lstrip s)"

text \<open>
  \<open>s.split(sep)\<close> for a one-character separator: the pieces between the separators,
  empty pieces included; the result is never the empty list.
\<close>

fun split_char :: "char \<Rightarrow> string \<Rightarrow> string list" where
  "split_char sep [] = [[]]"
| "split_char sep (c # cs) =
     (if c = sep then [] # split_char sep cs
      else (case split_char sep cs of
              [] \<Rightarrow> [[c]]
            | p # ps \<Rightarrow> (c # p) # ps))"

text \<open>
  \<open>s.split()\<close> with no argument: the maximal runs of non-whitespace characters.
  The first argument is the word being read.
\<close>

fun split_ws_aux :: "string \<Rightarrow> string \<Rightarrow> string list" where
  "split_ws_aux w [] = (if w = [] then [] else [w])"
| "split_ws_aux w (c # cs) =
     (if is_space c then (if w = [] then split_ws_aux [] cs else w # split_ws_aux [] cs)
      else split_ws_aux (w @ [c]) cs)"

definition split_ws :: "string \<Rightarrow> string list" where
  "split_ws s = split_ws_aux [] s"

text \<open>\<open>"".join(parts)\<close>.\<close>

definition join_empty :: "string list \<Rightarrow> string" where
  "join_empty parts = concat parts"

text \<open>
  \<open>s.index(c)\<close> for a one-character argument: the position of the first occurrence,
  \<open>None\<close> where Python raises \<open>ValueError\<close>.
\<close>

fun index_char :: "char \<Rightarrow> string \<Rightarrow> nat option" where
  "index_char c [] = None"
| "index_char c (d # ds) =
     (if d = c then Some 0
      else (case index_char c ds of None \<Rightarrow> None | Some i \<Rightarrow> Some (Suc i)))"

text \<open>
  \<open>sub in s\<close>: \<open>sub\<close> occurs in \<open>s\<close> as a contiguous
  substring.
\<close>

fun contains :: "string \<Rightarrow> string \<Rightarrow> bool" where
  "contains sub [] = (sub = [])"
| "contains sub (c # cs) = (take (length sub) (c # cs) = sub \<or> contains sub cs)"

text \<open>
  \<open>f.readlines()\<close>, and the iteration \<open>for line in f\<close>: the lines of the text, each
  with its terminating line feed; a last line without one is kept as it is.
\<close>

fun readlines_aux :: "string \<Rightarrow> string \<Rightarrow> string list" where
  "readlines_aux l [] = (if l = [] then [] else [l])"
| "readlines_aux l (c # cs) =
     (if c = CHR 0x0A then (l @ [c]) # readlines_aux [] cs
      else readlines_aux (l @ [c]) cs)"

definition readlines :: "string \<Rightarrow> string list" where
  "readlines txt = readlines_aux [] txt"

text \<open>
  \<open>int(s)\<close> on a string, base ten: surrounding whitespace is ignored, one sign may
  lead, then come decimal digits, where a single underscore may stand between two digits.
  \<open>None\<close> where Python raises \<open>ValueError\<close>. (The interpreter's configurable limit
  on the number of digits is not modelled.)
\<close>

definition is_digit :: "char \<Rightarrow> bool" where
  "is_digit c = (c \<in> set ''0123456789'')"

definition digit_val :: "char \<Rightarrow> nat" where
  "digit_val c = of_char c - 48"

fun digits_ok :: "string \<Rightarrow> bool" where
  "digits_ok [] = False"
| "digits_ok [c] = is_digit c"
| "digits_ok (c # d # cs) =
     (is_digit c \<and> (if d = CHR ''_'' then digits_ok cs else digits_ok (d # cs)))"

definition digits_value :: "string \<Rightarrow> nat" where
  "digits_value s = foldl (\<lambda>a c. 10 * a + digit_val c) 0 (filter (\<lambda>c. c \<noteq> CHR ''_'') s)"

definition py_int :: "string \<Rightarrow> int option" where
  "py_int s =
     (case strip s of
        [] \<Rightarrow> None
      | c # cs \<Rightarrow>
          if c = CHR ''-'' then (if digits_ok cs then Some (- int (digits_value cs)) else None)
          else if c = CHR ''+'' then (if digits_ok cs then Some (int (digits_value cs)) else None)
          else if digits_ok (c # cs) then Some (int (digits_value (c # cs))) else None)"

text \<open>
  \<open>str(n)\<close> for an integer, as an f-string and \<open>json.dump\<close> print
  it.
\<close>

definition digit_char :: "nat \<Rightarrow> char" where
  "digit_char n = ''0123456789'' ! n"

fun str_of_nat :: "nat \<Rightarrow> string" where
  "str_of_nat n = (if n < 10 then [digit_char n] else str_of_nat (n div 10) @ [digit_char (n mod 10)])"

declare str_of_nat.simps [simp del]

definition str_of_int :: "int \<Rightarrow> string" where
  "str_of_int i = (if i < 0 then CHR ''-'' # str_of_nat (nat (- i)) else str_of_nat (nat i))"

text \<open>
  \<open>os.path.join(d, name)\<close> on a POSIX system, for a relative
  \<open>name\<close>.
\<close>

definition path_join :: "string \<Rightarrow> string \<Rightarrow> string" where
  "path_join d name = d @ ''/'' @ name"

section \<open>Files, errors and output\<close>

text \<open>
  The file system maps a path to the text of the file there, \<open>None\<close> where no file
  exists. The two exceptions the script can meet are values; \<open>Inl\<close> of one is an
  exception that has left the function.
\<close>

type_synonym filesystem = "string \<Rightarrow> string option"

datatype py_error = FileNotFoundError string | ValueError string

section \<open>\<open>parse_fasta_universal\<close>\<close>

text \<open>
  The loop \<open>for record_block in records\<close>; the last argument is the list
  \<open>sequences\<close> the loop appends to.
\<close>

fun parse_records :: "bool \<Rightarrow> string list \<Rightarrow> string list \<Rightarrow> string list" where
  "parse_records make_uppercase [] sequences = sequences"
| "parse_records make_uppercase (record_block # records) sequences =
     (if strip record_block = [] then parse_records make_uppercase records sequences
      else
        let sequence_part =
              (case index_char (CHR 0x0A) record_block of
                 Some first_newline_pos \<Rightarrow> drop (first_newline_pos + 1) record_block
               | None \<Rightarrow> []);
            cleaned_sequence = join_empty (split_ws sequence_part);
            cleaned_sequence = (if make_uppercase then upper cleaned_sequence else cleaned_sequence)
        in if cleaned_sequence \<noteq> []
           then parse_records make_uppercase records (sequences @ [cleaned_sequence])
           else parse_records make_uppercase records sequences)"

text \<open>
  The body of the \<open>with\<close> block, on the text \<open>f.read()\<close> returns.
\<close>

definition parse_text :: "bool \<Rightarrow> string \<Rightarrow> string list" where
  "parse_text make_uppercase txt =
     parse_records make_uppercase (split_char (CHR ''>'') (strip txt)) []"

text \<open>
  The function takes the lines printed so far and returns them with its own; its result
  is \<open>None\<close> where the source returns \<open>None\<close>.
\<close>

definition parse_fasta_universal ::
  "filesystem \<Rightarrow> string \<Rightarrow> bool \<Rightarrow> string list \<Rightarrow> string list option \<times> string list" where
  "parse_fasta_universal fs file_path make_uppercase out =
     (case fs file_path of
        None \<Rightarrow> (None, out @ [''Warning: File not found at '' @ file_path @ ''. Skipping.''])
      | Some txt \<Rightarrow> (Some (parse_text make_uppercase txt), out))"

section \<open>The reactivity readers\<close>

text \<open>
  The loop \<open>for line in lines\<close> of \<open>process_react_numeric\<close>.
\<close>

fun numeric_lines :: "string list \<Rightarrow> int list \<Rightarrow> py_error + int list" where
  "numeric_lines [] react_values = Inr react_values"
| "numeric_lines (line # lines) react_values =
     (if strip line \<noteq> [] then
        (case py_int (strip line) of
           None \<Rightarrow> Inl (ValueError (strip line))
         | Some v \<Rightarrow> numeric_lines lines (react_values @ [v]))
      else numeric_lines lines react_values)"

definition process_react_numeric :: "filesystem \<Rightarrow> string \<Rightarrow> py_error + int list" where
  "process_react_numeric fs file_path =
     (case fs file_path of
        None \<Rightarrow> Inl (FileNotFoundError file_path)
      | Some txt \<Rightarrow>
          let lines = readlines txt;
              lines = (if lines \<noteq> [] \<and> contains ''reacts'' (lower (lines ! 0))
                       then drop 1 lines else lines)
          in numeric_lines lines [])"

text \<open>
  The loop \<open>for line in f\<close> of \<open>process_react_binary\<close>.
\<close>

fun binary_lines :: "string list \<Rightarrow> int list \<Rightarrow> int list" where
  "binary_lines [] react_values = react_values"
| "binary_lines (line # lines) react_values =
     (let val = upper (strip line)
      in if val = ''Y'' then binary_lines lines (react_values @ [4])
         else if val = ''N'' then binary_lines lines (react_values @ [0])
         else binary_lines lines react_values)"

definition process_react_binary :: "filesystem \<Rightarrow> string \<Rightarrow> py_error + int list" where
  "process_react_binary fs file_path =
     (case fs file_path of
        None \<Rightarrow> Inl (FileNotFoundError file_path)
      | Some txt \<Rightarrow> Inr (binary_lines (readlines txt) []))"

section \<open>The output: records and \<open>json.dump\<close>\<close>

text \<open>
  A record of the output is a Python dictionary with string keys, kept as the list of
  its items in insertion order, which is the order \<open>json.dump\<close> writes them in. A value
  is a string or an integer.
\<close>

datatype json_value = JStr string | JInt int

type_synonym py_dict = "(string \<times> json_value) list"

definition hex_digit :: "nat \<Rightarrow> char" where
  "hex_digit n = ''0123456789abcdef'' ! n"

text \<open>
  String escaping of \<open>json.dump\<close> with its default \<open>ensure_ascii=True\<close>: quote and
  backslash are escaped, every character outside the range from space to tilde is written
  with its short escape or as \<open>\u00XX\<close>.
\<close>

definition json_escape_char :: "char \<Rightarrow> string" where
  "json_escape_char c =
     (let n = (of_char c :: nat) in
      if n = 34 then [CHR 0x5C, CHR 0x22]
      else if n = 92 then [CHR 0x5C, CHR 0x5C]
      else if n = 10 then [CHR 0x5C, CHR ''n'']
      else if n = 13 then [CHR 0x5C, CHR ''r'']
      else if n = 9 then [CHR 0x5C, CHR ''t'']
      else if n = 8 then [CHR 0x5C, CHR ''b'']
      else if n = 12 then [CHR 0x5C, CHR ''f'']
      else if n < 32 \<or> 126 < n
        then [CHR 0x5C, CHR ''u'', CHR ''0'', CHR ''0'', hex_digit (n div 16), hex_digit (n mod 16)]
      else [c])"

definition json_string :: "string \<Rightarrow> string" where
  "json_string s = [CHR 0x22] @ concat (map json_escape_char s) @ [CHR 0x22]"

fun json_of_value :: "json_value \<Rightarrow> string" where
  "json_of_value (JStr s) = json_string s"
| "json_of_value (JInt i) = str_of_int i"

text \<open>\<open>sep.join(parts)\<close>.\<close>

fun join :: "string \<Rightarrow> string list \<Rightarrow> string" where
  "join sep [] = []"
| "join sep [p] = p"
| "join sep (p # q # ps) = p @ sep @ join sep (q # ps)"

text \<open>
  A dictionary as an element of the top-level array, with \<open>indent=2\<close>: its braces are
  indented by two spaces and its items by four.
\<close>

definition json_of_dict :: "py_dict \<Rightarrow> string" where
  "json_of_dict d =
     (if d = [] then ''{}''
      else ''{'' @ [CHR 0x0A] @
           join ('','' @ [CHR 0x0A])
             (map (\<lambda>(k, v). ''    '' @ json_string k @ '': '' @ json_of_value v) d) @
           [CHR 0x0A] @ ''  }'')"

text \<open>
  \<open>json.dump(all_data, f, indent=2)\<close>: the text written to the file.
\<close>

definition json_dump :: "py_dict list \<Rightarrow> string" where
  "json_dump ds =
     (if ds = [] then ''[]''
      else ''['' @ [CHR 0x0A] @
           join ('','' @ [CHR 0x0A]) (map (\<lambda>d. ''  '' @ json_of_dict d) ds) @
           [CHR 0x0A] @ '']'')"

section \<open>The driver\<close>

text \<open>
  The state of the run: the module-level list \<open>all_data\<close>, the lines printed so far
  (one entry for each call of \<open>print\<close>) and the files written so far, each with its
  name and its text.
\<close>

record run_state =
  all_data :: "py_dict list"
  stdout :: "string list"
  written :: "(string \<times> string) list"

definition data_directory :: string where
  "data_directory = ''.''"

definition prefixes :: "string list" where
  "prefixes = [''flu'', ''gut_hiv'', ''nat_cntrl'', ''nat_hiv'', ''plos_hiv'', ''mouse'']"

definition output_filename :: string where
  "output_filename = ''consolidated_data_boughter_2020.json''"

text \<open>The dictionary literal appended for one triple.\<close>

definition mk_record :: "string \<Rightarrow> string \<Rightarrow> string \<Rightarrow> int \<Rightarrow> py_dict" where
  "mk_record prefix h_chain l_chain react_val =
     [(''type'', JStr prefix),
      (''NumReact'', JInt react_val),
      (''DNA_fastaH_raw'', JStr h_chain),
      (''DNA_fastaL_raw'', JStr l_chain)]"

text \<open>
  The loop \<open>for h_chain, l_chain, react_val in zip(heavy_chains, light_chains, reactivity)\<close>;
  it stops with the shortest of the three lists.
\<close>

fun combine :: "string \<Rightarrow> string list \<Rightarrow> string list \<Rightarrow> int list \<Rightarrow> py_dict list \<Rightarrow> py_dict list" where
  "combine prefix (h_chain # hs) (l_chain # ls) (react_val # rs) data =
     combine prefix hs ls rs (data @ [mk_record prefix h_chain l_chain react_val])"
| "combine prefix hs ls rs data = data"

text \<open>The file names of one dataset.\<close>

definition heavy_chain_file :: "string \<Rightarrow> string" where
  "heavy_chain_file prefix =
     path_join data_directory
       (prefix @ ''_fastaH'' @ (if prefix = ''mouse'' then ''.dat'' else ''.txt''))"

definition light_chain_file :: "string \<Rightarrow> string" where
  "light_chain_file prefix =
     path_join data_directory
       (prefix @ ''_fastaL'' @ (if prefix = ''mouse'' then ''.dat'' else ''.txt''))"

definition should_uppercase :: "string \<Rightarrow> bool" where
  "should_uppercase prefix = (prefix = ''mouse'')"

text \<open>The choice of the reactivity reader and of its file.\<close>

definition read_reactivity :: "filesystem \<Rightarrow> string \<Rightarrow> py_error + int list" where
  "read_reactivity fs prefix =
     (if prefix \<in> set [''mouse'', ''plos_hiv'']
      then process_react_binary fs (path_join data_directory (prefix @ ''_YN.txt''))
      else process_react_numeric fs (path_join data_directory (prefix @ ''_NumReact.txt'')))"

definition mismatch_warning :: "string \<Rightarrow> string" where
  "mismatch_warning prefix =
     ''Warning: Mismatch in record counts for prefix '' @ [CHR 0x27] @ prefix @ [CHR 0x27] @
     ''. Skipping.''"

definition counts_line :: "nat \<Rightarrow> nat \<Rightarrow> nat \<Rightarrow> string" where
  "counts_line nh nl nr =
     ''  Heavy chains: '' @ str_of_nat nh @ '', Light chains: '' @ str_of_nat nl @
     '', Reactivity values: '' @ str_of_nat nr"

text \<open>
  One pass of the loop \<open>for prefix in prefixes\<close>. A \<open>continue\<close> is a return of the
  state; an exception of a reactivity reader is not caught and leaves the loop.
\<close>

definition loop_body :: "filesystem \<Rightarrow> string \<Rightarrow> run_state \<Rightarrow> py_error + run_state" where
  "loop_body fs prefix st =
     (let out = stdout st @ [''Processing '' @ prefix @ '' data...''];
          (heavy_chains, out) =
             parse_fasta_universal fs (heavy_chain_file prefix) (should_uppercase prefix) out;
          (light_chains, out) =
             parse_fasta_universal fs (light_chain_file prefix) (should_uppercase prefix) out
      in case heavy_chains of
           None \<Rightarrow> Inr (st\<lparr>stdout := out\<rparr>)
         | Some hs \<Rightarrow>
            (case light_chains of
               None \<Rightarrow> Inr (st\<lparr>stdout := out\<rparr>)
             | Some ls \<Rightarrow>
                (case read_reactivity fs prefix of
                   Inl e \<Rightarrow> Inl e
                 | Inr reactivity \<Rightarrow>
                     if length hs \<noteq> length ls \<or> length hs \<noteq> length reactivity
                     then Inr (st\<lparr>stdout := out @
                                 [mismatch_warning prefix,
                                  counts_line (length hs) (length ls) (length reactivity)]\<rparr>)
                     else Inr (st\<lparr>all_data := combine prefix hs ls reactivity (all_data st),
                                  stdout := out\<rparr>))))"

fun for_prefixes :: "filesystem \<Rightarrow> string list \<Rightarrow> run_state \<Rightarrow> py_error + run_state" where
  "for_prefixes fs [] st = Inr st"
| "for_prefixes fs (prefix # ps) st =
     (case loop_body fs prefix st of
        Inl e \<Rightarrow> Inl e
      | Inr st' \<Rightarrow> for_prefixes fs ps st')"

definition initial_state :: run_state where
  "initial_state = \<lparr>all_data = [], stdout = [], written = []\<rparr>"

text \<open>
  The statements after the loop: the output file and the two summary lines.
\<close>

definition save :: "run_state \<Rightarrow> run_state" where
  "save st =
     st\<lparr>written := written st @ [(output_filename, json_dump (all_data st))],
        stdout := stdout st @
          [[CHR 0x0A] @ ''Successfully consolidated all data into '' @ [CHR 0x27] @
             output_filename @ [CHR 0x27],
           ''Total records processed: '' @ str_of_nat (length (all_data st))]\<rparr>"

text \<open>The whole script, run on a file system.\<close>

definition main :: "filesystem \<Rightarrow> py_error + run_state" where
  "main fs =
     (case for_prefixes fs prefixes initial_state of
        Inl e \<Rightarrow> Inl e
      | Inr st \<Rightarrow> Inr (save st))"

section \<open>Descriptions used in the statements\<close>

text \<open>
  What the specification says of one line of a binary label file: trimmed, a \<open>Y\<close> in
  either case is 4, an \<open>N\<close> in either case is 0, anything else gives no entry.
\<close>

definition spec_binary_code :: "string \<Rightarrow> int option" where
  "spec_binary_code line =
     (if strip line = ''Y'' \<or> strip line = ''y'' then Some 4
      else if strip line = ''N'' \<or> strip line = ''n'' then Some 0
      else None)"

text \<open>
  What the specification says of one record of a sequence file: the header runs to the
  first line break, the rest is the sequence, from which all whitespace is removed; the
  result is uppercased on request.
\<close>

definition after_first_line_break :: "string \<Rightarrow> string" where
  "after_first_line_break b = drop 1 (dropWhile (\<lambda>c. c \<noteq> CHR 0x0A) b)"

definition spec_clean :: "bool \<Rightarrow> string \<Rightarrow> string" where
  "spec_clean make_uppercase b =
     (let s = filter (\<lambda>c. \<not> is_space c) (after_first_line_break b)
      in if make_uppercase then upper s else s)"

text \<open>
  What the specification says of a numeric label file: the first line is a header, and
  dropped, exactly when its lowercased text contains \<open>reacts\<close>; the entries are the
  remaining lines, trimmed, without the blank ones.
\<close>

definition spec_data_lines :: "string list \<Rightarrow> string list" where
  "spec_data_lines ls =
     (case ls of
        [] \<Rightarrow> []
      | first # rest \<Rightarrow> if contains ''reacts'' (lower first) then rest else first # rest)"

definition spec_entries :: "string \<Rightarrow> string list" where
  "spec_entries txt = filter (\<lambda>s. s \<noteq> []) (map strip (spec_data_lines (readlines txt)))"

text \<open>
  The sequences of a dataset's heavy-chain file and of its light-chain file,
  \<open>None\<close> where the file does not exist.
\<close>

definition heavy_chains :: "filesystem \<Rightarrow> string \<Rightarrow> string list option" where
  "heavy_chains fs prefix =
     map_option (parse_text (should_uppercase prefix)) (fs (heavy_chain_file prefix))"

definition light_chains :: "filesystem \<Rightarrow> string \<Rightarrow> string list option" where
  "light_chains fs prefix =
     map_option (parse_text (should_uppercase prefix)) (fs (light_chain_file prefix))"

text \<open>
  The exception that ends the run in a dataset, if any: both sequence files exist and the
  reactivity reader raises.
\<close>

definition abort_error :: "filesystem \<Rightarrow> string \<Rightarrow> py_error option" where
  "abort_error fs prefix =
     (case heavy_chains fs prefix of
        None \<Rightarrow> None
      | Some hs \<Rightarrow>
          (case light_chains fs prefix of
             None \<Rightarrow> None
           | Some ls \<Rightarrow>
               (case read_reactivity fs prefix of Inl e \<Rightarrow> Some e | Inr rs \<Rightarrow> None)))"

text \<open>
  The records of one dataset: when all three inputs are there and their counts agree, the
  triples paired by position, each tagged with the dataset label; otherwise none.
\<close>

definition dataset_records :: "filesystem \<Rightarrow> string \<Rightarrow> py_dict list" where
  "dataset_records fs prefix =
     (case heavy_chains fs prefix of
        None \<Rightarrow> []
      | Some hs \<Rightarrow>
          (case light_chains fs prefix of
             None \<Rightarrow> []
           | Some ls \<Rightarrow>
               (case read_reactivity fs prefix of
                  Inl e \<Rightarrow> []
                | Inr rs \<Rightarrow>
                    if length hs = length ls \<and> length hs = length rs
                    then map (\<lambda>(h, l, r). mk_record prefix h l r) (zip hs (zip ls rs))
                    else [])))"

text \<open>
  The warning \<open>parse_fasta_universal\<close> prints when the file does not exist.
\<close>

definition missing_warning :: "filesystem \<Rightarrow> string \<Rightarrow> string list" where
  "missing_warning fs file_path =
     (case fs file_path of
        None \<Rightarrow> [''Warning: File not found at '' @ file_path @ ''. Skipping.'']
      | Some t \<Rightarrow> [])"

text \<open>
  The lines one dataset prints: the progress line, a warning for each missing sequence
  file and, when the counts disagree, the warning with the three counts.
\<close>

definition dataset_messages :: "filesystem \<Rightarrow> string \<Rightarrow> string list" where
  "dataset_messages fs prefix =
     [''Processing '' @ prefix @ '' data...''] @
     missing_warning fs (heavy_chain_file prefix) @
     missing_warning fs (light_chain_file prefix) @
     (case heavy_chains fs prefix of
        None \<Rightarrow> []
      | Some hs \<Rightarrow>
          (case light_chains fs prefix of
             None \<Rightarrow> []
           | Some ls \<Rightarrow>
               (case read_reactivity fs prefix of
                  Inl e \<Rightarrow> []
                | Inr rs \<Rightarrow>
                    if length hs = length ls \<and> length hs = length rs then []
                    else [mismatch_warning prefix,
                          counts_line (length hs) (length ls) (length rs)])))"


text \<open>
  A dataset is skipped when a sequence file is missing or the three counts disagree.
\<close>

definition skipped :: "filesystem \<Rightarrow> string \<Rightarrow> bool" where
  "skipped fs prefix =
     (case heavy_chains fs prefix of
        None \<Rightarrow> True
      | Some hs \<Rightarrow>
          (case light_chains fs prefix of
             None \<Rightarrow> True
           | Some ls \<Rightarrow>
               (case read_reactivity fs prefix of
                  Inl e \<Rightarrow> False
                | Inr rs \<Rightarrow> length hs \<noteq> length ls \<or> length hs \<noteq> length rs)))"


text \<open>The numeric reactivity file of a dataset.\<close>

definition numeric_file :: "string \<Rightarrow> string" where
  "numeric_file prefix = path_join data_directory (prefix @ ''_NumReact.txt'')"

text \<open>
  What it is for a line to state a count: the count is written as its decimal numeral,
  that is, a non-empty string of digits, without a leading zero unless it is \<open>0\<close>,
  whose positional value is the count.
\<close>

fun decimal_value :: "string \<Rightarrow> nat" where
  "decimal_value [] = 0"
| "decimal_value (c # cs) = (of_char c - 48) * 10 ^ length cs + decimal_value cs"

definition is_decimal_of :: "nat \<Rightarrow> string \<Rightarrow> bool" where
  "is_decimal_of n s =
     (s \<noteq> [] \<and> list_all is_digit s \<and> (hd s = CHR ''0'' \<longrightarrow> s = ''0'') \<and>
      decimal_value s = n)"

section \<open>Example inputs\<close>

definition nl :: string where
  "nl = [CHR 0x0A]"

text \<open>
  A binary label file with both cases, padding, a blank line and two other lines.
\<close>

definition yn_text :: string where
  "yn_text = ''Y'' @ nl @ '' n '' @ nl @ nl @ ''x'' @ nl @ ''yes'' @ nl @ ''N''"

text \<open>
  A mixed-case sequence file of two records, as the mouse dataset has them.
\<close>

definition mixed_case_text :: string where
  "mixed_case_text = ''>m1'' @ nl @ ''acGT'' @ nl @ ''tt'' @ nl @ ''>m2'' @ nl @ ''Gatc'' @ nl"

text \<open>
  The blocks of a sequence file of four records: one with a sequence on two lines, one
  with a header only, one whose sequence is blank, and one more.
\<close>

definition fasta_blocks :: "string list" where
  "fasta_blocks =
     [''h1'' @ nl @ ''AC GT'' @ nl @ ''tt'' @ nl,
      ''h2'',
      ''h3'' @ nl @ '' '' @ nl,
      ''h4 x'' @ nl @ ''gg'' @ nl]"

text \<open>A sequence file with two lines of text before its first record.\<close>

definition preheader_text :: string where
  "preheader_text = ''notes'' @ nl @ ''ACGT'' @ nl @ ''>h'' @ nl @ ''AA'' @ nl"

text \<open>
  A numeric label file with a header, a blank line and padded, signed and underscored
  numbers; and one without a header whose second line is not an integer.
\<close>

definition numeric_text :: string where
  "numeric_text = ''NumReacts'' @ nl @ ''1'' @ nl @ nl @ '' 20 '' @ nl @ ''+3'' @ nl @ ''1_0''"

definition bad_numeric_text :: string where
  "bad_numeric_text = ''7'' @ nl @ ''1.5'' @ nl @ ''reacts'' @ nl"


text \<open>
  A dataset with twelve heavy chains, two light chains and one reactivity value, next to
  a dataset with one valid record.
\<close>

definition mismatch_fs :: filesystem where
  "mismatch_fs = map_of
     [(''./flu_fastaH.txt'', concat (replicate 12 (''>h'' @ nl @ ''ACGT'' @ nl))),
      (''./flu_fastaL.txt'', ''>a'' @ nl @ ''GGG'' @ nl @ ''>b'' @ nl @ ''TTT'' @ nl),
      (''./flu_NumReact.txt'', ''3'' @ nl),
      (''./mouse_fastaH.dat'', ''>m'' @ nl @ ''ac'' @ nl),
      (''./mouse_fastaL.dat'', ''>m'' @ nl @ ''tt'' @ nl),
      (''./mouse_YN.txt'', ''Y'' @ nl)]"

text \<open>
  A dataset of two records, with a two-digit and a negative reactivity value, and the
  text of the output file the script writes for it.
\<close>

definition two_record_fs :: filesystem where
  "two_record_fs = map_of
     [(''./flu_fastaH.txt'', ''>a'' @ nl @ ''AAA'' @ nl @ ''>b'' @ nl @ ''CCC'' @ nl),
      (''./flu_fastaL.txt'', ''>a'' @ nl @ ''GGG'' @ nl @ ''>b'' @ nl @ ''TTT'' @ nl),
      (''./flu_NumReact.txt'', ''NumReacts'' @ nl @ ''12'' @ nl @ ''-2'' @ nl)]"

definition dq :: string where
  "dq = [CHR 0x22]"

definition two_record_json :: string where
  "two_record_json =
     ''['' @ nl @
     ''  {'' @ nl @
     ''    '' @ dq @ ''type'' @ dq @ '': '' @ dq @ ''flu'' @ dq @ '','' @ nl @
     ''    '' @ dq @ ''NumReact'' @ dq @ '': 12,'' @ nl @
     ''    '' @ dq @ ''DNA_fastaH_raw'' @ dq @ '': '' @ dq @ ''AAA'' @ dq @ '','' @ nl @
     ''    '' @ dq @ ''DNA_fastaL_raw'' @ dq @ '': '' @ dq @ ''GGG'' @ dq @ nl @
     ''  },'' @ nl @
     ''  {'' @ nl @
     ''    '' @ dq @ ''type'' @ dq @ '': '' @ dq @ ''flu'' @ dq @ '','' @ nl @
     ''    '' @ dq @ ''NumReact'' @ dq @ '': -2,'' @ nl @
     ''    '' @ dq @ ''DNA_fastaH_raw'' @ dq @ '': '' @ dq @ ''CCC'' @ dq @ '','' @ nl @
     ''    '' @ dq @ ''DNA_fastaL_raw'' @ dq @ '': '' @ dq @ ''TTT'' @ dq @ nl @
     ''  }'' @ nl @
     '']''"

text \<open>A dataset whose numeric reactivity file holds a negative number.\<close>

definition negative_fs :: filesystem where
  "negative_fs = map_of
     [(''./flu_fastaH.txt'', ''>a'' @ nl @ ''AAA'' @ nl),
      (''./flu_fastaL.txt'', ''>a'' @ nl @ ''GGG'' @ nl),
      (''./flu_NumReact.txt'', ''-1'' @ nl)]"

text \<open>A dataset with both sequence files and no reactivity file.\<close>

definition no_reactivity_fs :: filesystem where
  "no_reactivity_fs = map_of
     [(''./flu_fastaH.txt'', ''>a'' @ nl @ ''AAA'' @ nl),
      (''./flu_fastaL.txt'', ''>a'' @ nl @ ''GGG'' @ nl)]"

section \<open>Facts about the text primitives\<close>

lemmas case_defs = upper_char_def lower_char_def ascii_lowercase_def ascii_uppercase_def

lemmas strip_defs = strip_def lstrip_def rstrip_def is_space_def

lemma upper_char_idem: "upper_char (upper_char c) = upper_char c"
  by (simp add: case_defs)

lemma upper_char_space: "is_space (upper_char c) = is_space c"
  by (simp add: case_defs is_space_def)

lemma upper_char_Y: "upper_char c = CHR ''Y'' \<longleftrightarrow> c = CHR ''Y'' \<or> c = CHR ''y''"
  by (simp add: case_defs)

lemma upper_char_N: "upper_char c = CHR ''N'' \<longleftrightarrow> c = CHR ''N'' \<or> c = CHR ''n''"
  by (simp add: case_defs)

lemma upper_eq_Y: "upper s = ''Y'' \<longleftrightarrow> s = ''Y'' \<or> s = ''y''"
  by (cases s) (auto simp: upper_def upper_char_Y)

lemma upper_eq_N: "upper s = ''N'' \<longleftrightarrow> s = ''N'' \<or> s = ''n''"
  by (cases s) (auto simp: upper_def upper_char_N)

lemma upper_idem: "upper (upper s) = upper s"
  by (simp add: upper_def upper_char_idem)

lemma concat_split_ws_aux: "concat (split_ws_aux w s) = w @ filter (\<lambda>c. \<not> is_space c) s"
  by (induction s arbitrary: w) auto

lemma join_split_ws: "join_empty (split_ws s) = filter (\<lambda>c. \<not> is_space c) s"
  by (simp add: join_empty_def split_ws_def concat_split_ws_aux)

lemma index_char_drop:
  "(case index_char c b of Some i \<Rightarrow> drop (i + 1) b | None \<Rightarrow> []) =
   drop 1 (dropWhile (\<lambda>d. d \<noteq> c) b)"
  by (induction b) (auto split: option.splits)

lemma rstrip_Nil_iff: "rstrip s = [] \<longleftrightarrow> (\<forall>c\<in>set s. is_space c)"
  by (simp add: rstrip_def dropWhile_eq_Nil_conv)

lemma lstrip_Nil_iff: "lstrip s = [] \<longleftrightarrow> (\<forall>c\<in>set s. is_space c)"
  by (simp add: lstrip_def dropWhile_eq_Nil_conv)

lemma strip_Nil_iff: "strip s = [] \<longleftrightarrow> (\<forall>c\<in>set s. is_space c)"
proof
  assume "strip s = []"
  then have "\<forall>c\<in>set (lstrip s). is_space c" by (simp add: strip_def rstrip_Nil_iff)
  then have "lstrip s = []"
    unfolding lstrip_def by (metis dropWhile_eq_Nil_conv dropWhile_idem)
  then show "\<forall>c\<in>set s. is_space c" by (simp add: lstrip_Nil_iff)
next
  assume "\<forall>c\<in>set s. is_space c"
  then have "lstrip s = []" by (simp add: lstrip_Nil_iff)
  then show "strip s = []" by (simp add: strip_def rstrip_def)
qed

section \<open>The sequence parser\<close>

lemma spec_clean_blank: "\<forall>c\<in>set b. is_space c \<Longrightarrow> spec_clean mk b = []"
proof -
  assume a: "\<forall>c\<in>set b. is_space c"
  have "set (after_first_line_break b) \<subseteq> set b"
    unfolding after_first_line_break_def
    by (meson set_drop_subset set_dropWhileD subsetI subset_trans in_mono)
  with a have "filter (\<lambda>c. \<not> is_space c) (after_first_line_break b) = []"
    by (auto simp: filter_empty_conv)
  then show ?thesis by (simp add: spec_clean_def upper_def)
qed

text \<open>
  The loop of the parser emits the cleaned sequence of every block that has one.
\<close>

lemma parse_records_acc:
  "parse_records mk bs acc = acc @ filter (\<lambda>s. s \<noteq> []) (map (spec_clean mk) bs)"
proof (induction bs arbitrary: acc)
  case Nil
  show ?case by simp
next
  case (Cons b bs)
  show ?case
  proof (cases "strip b = []")
    case True
    then have "spec_clean mk b = []" by (simp add: strip_Nil_iff spec_clean_blank)
    with True show ?thesis by (simp add: Cons.IH)
  next
    case False
    then show ?thesis
      by (simp add: Cons.IH Let_def index_char_drop join_split_ws spec_clean_def
          after_first_line_break_def)
  qed
qed

lemma spec_clean_no_space: "c \<in> set (spec_clean mk b) \<Longrightarrow> \<not> is_space c"
  by (auto simp: spec_clean_def upper_def upper_char_space Let_def split: if_splits)

lemma spec_clean_upper: "upper (spec_clean True b) = spec_clean True b"
  by (simp add: spec_clean_def upper_idem)

text \<open>
  Claim C9. Every sequence the parser returns when called with \<open>make_uppercase=True\<close>
  is a fixed point of uppercasing: uppercasing it again changes nothing.
\<close>

theorem uppercase_flag_idempotent:
  assumes "parse_fasta_universal fs file_path True out = (Some sequences, out')"
    and "s \<in> set sequences"
  shows "upper s = s"
proof -
  from assms(1) obtain t where "fs file_path = Some t"
    and seqs: "sequences = parse_text True t"
    by (auto simp: parse_fasta_universal_def split: option.splits)
  from assms(2) seqs obtain b where "s = spec_clean True b"
    by (auto simp: parse_text_def parse_records_acc)
  then show ?thesis by (simp add: spec_clean_upper)
qed

lemma mixed_case_parse:
  "parse_fasta_universal [''./mouse_fastaH.dat'' \<mapsto> mixed_case_text] ''./mouse_fastaH.dat'' True [] =
     (Some [''ACGTTT'', ''GATC''], [])"
  by (simp add: parse_fasta_universal_def parse_text_def mixed_case_text_def nl_def
      strip_defs split_ws_def join_empty_def upper_def case_defs)

theorem uppercase_flag_idempotent_witness:
  "parse_fasta_universal [''./mouse_fastaH.dat'' \<mapsto> mixed_case_text] ''./mouse_fastaH.dat'' True [] =
     (Some [''ACGTTT'', ''GATC''], []) \<and>
   ''GATC'' \<in> set [''ACGTTT'', ''GATC''] \<and> upper ''GATC'' = ''GATC''"
  using uppercase_flag_idempotent [OF mixed_case_parse, of "''GATC''"] mixed_case_parse
  by simp

lemma split_char_no_sep: "sep \<notin> set pre \<Longrightarrow> split_char sep pre = [pre]"
  by (induction pre) auto

lemma split_char_first:
  "sep \<notin> set pre \<Longrightarrow> split_char sep (pre @ sep # rest) = pre # split_char sep rest"
  by (induction pre) auto

lemma lstrip_before_mark:
  "\<not> is_space c \<Longrightarrow> lstrip (pre @ c # rest) = lstrip pre @ c # rest"
  by (induction pre) (auto simp: lstrip_def)

lemma rstrip_after_mark:
  "\<not> is_space c \<Longrightarrow> rstrip (xs @ c # ys) = xs @ c # rstrip ys"
  by (simp add: rstrip_def dropWhile_append)

lemma rstrip_decomp: "\<exists>w. b = rstrip b @ w \<and> (\<forall>c\<in>set w. is_space c)"
proof -
  have "rev b = takeWhile is_space (rev b) @ dropWhile is_space (rev b)" by simp
  then have "b = rev (dropWhile is_space (rev b)) @ rev (takeWhile is_space (rev b))"
    by (metis rev_append rev_rev_ident)
  moreover have "\<forall>c\<in>set (rev (takeWhile is_space (rev b))). is_space c"
    by (auto dest: set_takeWhileD)
  ultimately show ?thesis unfolding rstrip_def by blast
qed

lemma set_rstrip: "set (rstrip b) \<subseteq> set b"
  by (metis rstrip_decomp set_append Un_upper1)

lemma set_lstrip: "set (lstrip b) \<subseteq> set b"
  by (auto simp: lstrip_def dest: set_dropWhileD)


lemma drop_dropWhile_subset: "set (drop n (dropWhile P w)) \<subseteq> set w"
  by (auto dest: in_set_dropD set_dropWhileD)

lemma dropWhile_absent: "c \<notin> set b \<Longrightarrow> dropWhile (\<lambda>d. d \<noteq> c) (b @ w) = dropWhile (\<lambda>d. d \<noteq> c) w"
  by (induction b) auto

lemma dropWhile_present:
  "c \<in> set b \<Longrightarrow> \<exists>x xs. dropWhile (\<lambda>d. d \<noteq> c) b = x # xs \<and>
     dropWhile (\<lambda>d. d \<noteq> c) (b @ w) = x # xs @ w"
  by (induction b) auto

lemma afl_no_break:
  assumes "CHR 0x0A \<notin> set b"
  shows "after_first_line_break (b @ w) = after_first_line_break w"
proof -
  have e: "dropWhile (\<lambda>d. d \<noteq> CHR 0x0A) (b @ w) = dropWhile (\<lambda>d. d \<noteq> CHR 0x0A) w"
    using assms by (rule dropWhile_absent)
  show ?thesis unfolding after_first_line_break_def e ..
qed

lemma afl_no_break_Nil:
  assumes "CHR 0x0A \<notin> set b"
  shows "after_first_line_break b = []"
proof -
  have "after_first_line_break (b @ []) = after_first_line_break []"
    using assms by (rule afl_no_break)
  then show ?thesis by (simp add: after_first_line_break_def)
qed

lemma afl_break:
  assumes "CHR 0x0A \<in> set b"
  shows "after_first_line_break (b @ w) = after_first_line_break b @ w"
proof -
  obtain x xs where "dropWhile (\<lambda>d. d \<noteq> CHR 0x0A) b = x # xs"
    and "dropWhile (\<lambda>d. d \<noteq> CHR 0x0A) (b @ w) = x # xs @ w"
    using dropWhile_present [OF assms] by blast
  then show ?thesis unfolding after_first_line_break_def by simp
qed

lemma afl_subset: "set (after_first_line_break w) \<subseteq> set w"
  unfolding after_first_line_break_def by (rule drop_dropWhile_subset)

lemma clean_append_blank:
  assumes "\<forall>c\<in>set w. is_space c"
  shows "spec_clean mk (b @ w) = spec_clean mk b"
proof -
  have w: "filter (\<lambda>c. \<not> is_space c) w = []"
    using assms by (simp add: filter_empty_conv)
  have aw: "filter (\<lambda>c. \<not> is_space c) (after_first_line_break w) = []"
    using assms afl_subset [of w] by (auto simp: filter_empty_conv)
  have "filter (\<lambda>c. \<not> is_space c) (after_first_line_break (b @ w)) =
        filter (\<lambda>c. \<not> is_space c) (after_first_line_break b)"
  proof (cases "CHR 0x0A \<in> set b")
    case True
    then show ?thesis using w by (simp add: afl_break)
  next
    case False
    then show ?thesis using aw by (simp add: afl_no_break afl_no_break_Nil)
  qed
  then show ?thesis by (simp add: spec_clean_def)
qed

lemma clean_rstrip: "spec_clean mk (rstrip b) = spec_clean mk b"
proof -
  obtain w where w: "rstrip b @ w = b" "\<forall>c\<in>set w. is_space c"
    using rstrip_decomp [of b] by metis
  have "spec_clean mk (rstrip b @ w) = spec_clean mk (rstrip b)"
    using w(2) by (rule clean_append_blank)
  with w(1) show ?thesis by simp
qed

lemma clean_Nil: "spec_clean mk [] = []"
  by (simp add: spec_clean_def after_first_line_break_def upper_def)

lemma not_space_mark: "\<not> is_space (CHR ''>'')"
  by (simp add: is_space_def)

lemma clean_blocks:
  assumes "CHR ''>'' \<notin> set b" "\<forall>x\<in>set bs. CHR ''>'' \<notin> set x"
  shows "map (spec_clean mk) (split_char (CHR ''>'') (rstrip (b @ concat (map ((#) (CHR ''>'')) bs)))) =
         map (spec_clean mk) (b # bs)"
  using assms
proof (induction bs arbitrary: b)
  case Nil
  then have "CHR ''>'' \<notin> set (rstrip b)" using set_rstrip by blast
  then show ?case by (simp add: split_char_no_sep clean_rstrip)
next
  case (Cons b' bs)
  have "rstrip (b @ concat (map ((#) (CHR ''>'')) (b' # bs))) =
        b @ CHR ''>'' # rstrip (b' @ concat (map ((#) (CHR ''>'')) bs))"
    using rstrip_after_mark [OF not_space_mark] by simp
  moreover have "map (spec_clean mk)
      (split_char (CHR ''>'') (rstrip (b' @ concat (map ((#) (CHR ''>'')) bs)))) =
      map (spec_clean mk) (b' # bs)"
    using Cons.prems by (intro Cons.IH) auto
  ultimately show ?case using Cons.prems(1) by (simp add: split_char_first)
qed

lemma parse_text_mark:
  assumes "CHR ''>'' \<notin> set pre"
  shows "parse_text mk (pre @ CHR ''>'' # rest) =
         filter (\<lambda>s. s \<noteq> []) (map (spec_clean mk) (lstrip pre # split_char (CHR ''>'') (rstrip rest)))"
proof -
  have "strip (pre @ CHR ''>'' # rest) = lstrip pre @ CHR ''>'' # rstrip rest"
    by (simp add: strip_def lstrip_before_mark rstrip_after_mark not_space_mark)
  moreover have "CHR ''>'' \<notin> set (lstrip pre)" using assms set_lstrip by blast
  ultimately show ?thesis
    by (simp add: parse_text_def split_char_first parse_records_acc)
qed

text \<open>
  Claim C3. For an existing file whose text is optional leading whitespace followed by
  records, each the delimiter \<open>>\<close> and a block free of it, the parser returns, in
  file order, the cleaned sequence of every block (the text after the block's first line
  break with all whitespace removed, uppercased on request), leaving out the blocks whose
  cleaned sequence is empty; it prints nothing, and no returned string holds a whitespace
  character.
\<close>

theorem parser_cleans_each_record:
  assumes "fs file_path = Some (pre @ concat (map ((#) (CHR ''>'')) blocks))"
    and "\<forall>c\<in>set pre. is_space c"
    and "\<forall>b\<in>set blocks. CHR ''>'' \<notin> set b"
  shows "parse_fasta_universal fs file_path make_uppercase out =
           (Some (filter (\<lambda>s. s \<noteq> []) (map (spec_clean make_uppercase) blocks)), out) \<and>
         (\<forall>b\<in>set blocks. \<forall>c\<in>set (spec_clean make_uppercase b). \<not> is_space c)"
proof -
  have "parse_text make_uppercase (pre @ concat (map ((#) (CHR ''>'')) blocks)) =
        filter (\<lambda>s. s \<noteq> []) (map (spec_clean make_uppercase) blocks)"
  proof (cases blocks)
    case Nil
    from assms(2) have "strip pre = []"
      by (simp add: strip_Nil_iff)
    with Nil show ?thesis by (simp add: parse_text_def parse_records_acc clean_Nil)
  next
    case (Cons b bs)
    have "CHR ''>'' \<notin> set pre" using assms(2) not_space_mark by blast
    moreover have "lstrip pre = []" using assms(2) by (simp add: lstrip_Nil_iff)
    moreover have "map (spec_clean make_uppercase)
        (split_char (CHR ''>'') (rstrip (b @ concat (map ((#) (CHR ''>'')) bs)))) =
        map (spec_clean make_uppercase) (b # bs)"
      using assms(3) Cons by (intro clean_blocks) auto
    ultimately show ?thesis using Cons
      by (simp add: parse_text_mark clean_Nil)
  qed
  then show ?thesis using assms(1)
    by (auto simp: parse_fasta_universal_def dest: spec_clean_no_space)
qed


lemmas parse_eval = parse_fasta_universal_def parse_text_def nl_def
      strip_defs split_ws_def join_empty_def upper_def case_defs

theorem parser_cleans_each_record_witness:
  "[''./flu_fastaH.txt'' \<mapsto> ('' '' @ nl) @ concat (map ((#) (CHR ''>'')) fasta_blocks)] ''./flu_fastaH.txt'' =
     Some (('' '' @ nl) @ concat (map ((#) (CHR ''>'')) fasta_blocks)) \<and>
   list_all is_space ('' '' @ nl) \<and>
   list_all (\<lambda>b. CHR ''>'' \<notin> set b) fasta_blocks \<and>
   parse_fasta_universal
     [''./flu_fastaH.txt'' \<mapsto> ('' '' @ nl) @ concat (map ((#) (CHR ''>'')) fasta_blocks)]
     ''./flu_fastaH.txt'' False [] = (Some [''ACGTtt'', ''gg''], [])"
proof -
  have h2: "\<forall>c\<in>set ('' '' @ nl). is_space c"
    by (simp add: nl_def is_space_def)
  have h3: "\<forall>b\<in>set fasta_blocks. CHR ''>'' \<notin> set b"
    by (simp add: fasta_blocks_def nl_def)
  have c: "filter (\<lambda>s. s \<noteq> []) (map (spec_clean False) fasta_blocks) = [''ACGTtt'', ''gg'']"
    by (simp add: fasta_blocks_def nl_def spec_clean_def after_first_line_break_def is_space_def)
  show ?thesis
    using parser_cleans_each_record [OF _ h2 h3,
        of "[''./flu_fastaH.txt'' \<mapsto> ('' '' @ nl) @ concat (map ((#) (CHR ''>'')) fasta_blocks)]"
           "''./flu_fastaH.txt''" False "[]"] h2 h3 c
    by (simp add: list_all_iff)
qed

text \<open>
  Claim C7, as stated, fails: in a file that has text before its first delimiter, the
  second line of that text is returned as a sequence. Parsing the same file from its
  first delimiter on returns one sequence less.
\<close>

theorem pre_header_text_is_parsed:
  "parse_fasta_universal [''./flu_fastaH.txt'' \<mapsto> preheader_text] ''./flu_fastaH.txt'' False [] =
     (Some [''ACGT'', ''AA''], []) \<and>
   parse_fasta_universal [''./flu_fastaH.txt'' \<mapsto> drop 11 preheader_text] ''./flu_fastaH.txt'' False [] =
     (Some [''AA''], []) \<and>
   take 11 preheader_text = ''notes'' @ nl @ ''ACGT'' @ nl"
  by (simp add: preheader_text_def parse_eval)

text \<open>
  Claim C7, amended. The fragment before the first delimiter is handled as a record of its
  own, after the leading whitespace of the file is trimmed: the result is the cleaned
  text after its first line break, if that is not empty, followed by what the parser
  returns for the text from the first delimiter on. When the fragment is blank, nothing of
  the result comes from it.
\<close>

theorem pre_header_fragment:
  assumes "fs file_path = Some (pre @ CHR ''>'' # rest)"
    and "CHR ''>'' \<notin> set pre"
  shows "fst (parse_fasta_universal fs file_path mk out) =
           Some (filter (\<lambda>s. s \<noteq> []) [spec_clean mk (lstrip pre)] @ parse_text mk (CHR ''>'' # rest)) \<and>
         ((\<forall>c\<in>set pre. is_space c) \<longrightarrow>
            fst (parse_fasta_universal fs file_path mk out) = Some (parse_text mk (CHR ''>'' # rest)))"
proof -
  have a: "parse_text mk (pre @ CHR ''>'' # rest) =
        filter (\<lambda>s. s \<noteq> []) [spec_clean mk (lstrip pre)] @
        filter (\<lambda>s. s \<noteq> []) (map (spec_clean mk) (split_char (CHR ''>'') (rstrip rest)))"
    using parse_text_mark [OF assms(2), of mk rest] by simp
  have "parse_text mk ([] @ CHR ''>'' # rest) =
        filter (\<lambda>s. s \<noteq> []) (map (spec_clean mk) (lstrip [] # split_char (CHR ''>'') (rstrip rest)))"
    by (rule parse_text_mark) simp
  then have b: "parse_text mk (CHR ''>'' # rest) =
        filter (\<lambda>s. s \<noteq> []) (map (spec_clean mk) (split_char (CHR ''>'') (rstrip rest)))"
    by (simp add: lstrip_def clean_Nil)
  have c: "(\<forall>c\<in>set pre. is_space c) \<Longrightarrow> spec_clean mk (lstrip pre) = []"
    by (simp add: lstrip_Nil_iff [symmetric] clean_Nil)
  show ?thesis using assms(1) a b c
    by (auto simp: parse_fasta_universal_def)
qed

theorem pre_header_fragment_witness:
  "[''./flu_fastaH.txt'' \<mapsto> preheader_text] ''./flu_fastaH.txt'' =
     Some ((''notes'' @ nl @ ''ACGT'' @ nl) @ CHR ''>'' # (''h'' @ nl @ ''AA'' @ nl)) \<and>
   CHR ''>'' \<notin> set (''notes'' @ nl @ ''ACGT'' @ nl) \<and>
   fst (parse_fasta_universal [''./flu_fastaH.txt'' \<mapsto> preheader_text] ''./flu_fastaH.txt'' False []) =
     Some [''ACGT'', ''AA''] \<and>
   [''./flu_fastaL.txt'' \<mapsto> ('' '' @ nl) @ CHR ''>'' # (''h'' @ nl @ ''AA'' @ nl)] ''./flu_fastaL.txt'' =
     Some (('' '' @ nl) @ CHR ''>'' # (''h'' @ nl @ ''AA'' @ nl)) \<and>
   CHR ''>'' \<notin> set ('' '' @ nl) \<and> list_all is_space ('' '' @ nl) \<and>
   fst (parse_fasta_universal
          [''./flu_fastaL.txt'' \<mapsto> ('' '' @ nl) @ CHR ''>'' # (''h'' @ nl @ ''AA'' @ nl)]
          ''./flu_fastaL.txt'' False []) =
     Some [''AA'']"
proof -
  have e1: "[''./flu_fastaH.txt'' \<mapsto> preheader_text] ''./flu_fastaH.txt'' =
     Some ((''notes'' @ nl @ ''ACGT'' @ nl) @ CHR ''>'' # (''h'' @ nl @ ''AA'' @ nl))"
    by (simp add: preheader_text_def)
  have n1: "CHR ''>'' \<notin> set (''notes'' @ nl @ ''ACGT'' @ nl)"
    by (simp add: nl_def)
  have v1: "filter (\<lambda>s. s \<noteq> []) [spec_clean False (lstrip (''notes'' @ nl @ ''ACGT'' @ nl))] = [''ACGT'']"
    by (simp add: nl_def spec_clean_def after_first_line_break_def lstrip_def is_space_def)
  have v2: "parse_text False (CHR ''>'' # (''h'' @ nl @ ''AA'' @ nl)) = [''AA'']"
    by (simp add: parse_eval)
  have r1: "fst (parse_fasta_universal [''./flu_fastaH.txt'' \<mapsto> preheader_text] ''./flu_fastaH.txt'' False []) =
     Some [''ACGT'', ''AA'']"
    using pre_header_fragment
        [of "[''./flu_fastaH.txt'' \<mapsto> preheader_text]" "''./flu_fastaH.txt''"
            "''notes'' @ nl @ ''ACGT'' @ nl" "''h'' @ nl @ ''AA'' @ nl" False "[]", OF e1 n1]
      v1 v2 by simp
  have e2: "[''./flu_fastaL.txt'' \<mapsto> ('' '' @ nl) @ CHR ''>'' # (''h'' @ nl @ ''AA'' @ nl)] ''./flu_fastaL.txt'' =
     Some (('' '' @ nl) @ CHR ''>'' # (''h'' @ nl @ ''AA'' @ nl))"
    by simp
  have n2: "CHR ''>'' \<notin> set ('' '' @ nl)"
    by (simp add: nl_def)
  have s2: "\<forall>c\<in>set ('' '' @ nl). is_space c"
    by (simp add: nl_def is_space_def)
  have r2: "fst (parse_fasta_universal
          [''./flu_fastaL.txt'' \<mapsto> ('' '' @ nl) @ CHR ''>'' # (''h'' @ nl @ ''AA'' @ nl)]
          ''./flu_fastaL.txt'' False []) = Some [''AA'']"
    using mp [OF conjunct2 [OF pre_header_fragment
        [of "[''./flu_fastaL.txt'' \<mapsto> ('' '' @ nl) @ CHR ''>'' # (''h'' @ nl @ ''AA'' @ nl)]"
            "''./flu_fastaL.txt''" "'' '' @ nl" "''h'' @ nl @ ''AA'' @ nl" False "[]", OF e2 n2]] s2]
    unfolding v2 .
  show ?thesis using e1 n1 r1 e2 n2 s2 r2 unfolding list_all_iff by blast
qed

section \<open>The binary reactivity reader\<close>

lemma binary_lines_acc:
  "binary_lines ls acc = acc @ List.map_filter spec_binary_code ls"
proof (induction ls arbitrary: acc)
  case Nil
  show ?case by (simp add: List.map_filter_simps)
next
  case (Cons l ls)
  show ?case
    by (simp add: Cons.IH Let_def upper_eq_Y upper_eq_N spec_binary_code_def List.map_filter_simps)
qed

text \<open>
  Claim C6. On an existing file the binary reader returns, in line order, 4 for every
  line that is \<open>Y\<close> or \<open>y\<close> once trimmed and 0 for every line that is \<open>N\<close> or
  \<open>n\<close> once trimmed; every other line, a blank one included, gives no entry, and the
  reader raises nothing.
\<close>

theorem binary_reader_maps_Y_N:
  assumes "fs file_path = Some txt"
  shows "process_react_binary fs file_path =
           Inr (List.map_filter spec_binary_code (readlines txt))"
  using assms by (simp add: process_react_binary_def binary_lines_acc)

lemma yn_lines:
  "readlines yn_text = [''Y'' @ nl, '' n '' @ nl, nl, ''x'' @ nl, ''yes'' @ nl, ''N'']"
  by (simp add: readlines_def yn_text_def nl_def)

theorem binary_reader_maps_Y_N_witness:
  "[''./mouse_YN.txt'' \<mapsto> yn_text] ''./mouse_YN.txt'' = Some yn_text \<and>
   process_react_binary [''./mouse_YN.txt'' \<mapsto> yn_text] ''./mouse_YN.txt'' = Inr [4, 0, 0]"
  using binary_reader_maps_Y_N [of "[''./mouse_YN.txt'' \<mapsto> yn_text]" "''./mouse_YN.txt''" yn_text]
  by (simp add: yn_lines List.map_filter_simps spec_binary_code_def strip_defs nl_def)

section \<open>The numeric reactivity reader\<close>

text \<open>The test \<open>sub in s\<close> is the substring relation.\<close>

lemma contains_iff: "contains sub s \<longleftrightarrow> (\<exists>a b. s = a @ sub @ b)"
proof (induction s)
  case Nil
  show ?case by auto
next
  case (Cons c cs)
  have p: "take (length sub) (c # cs) = sub \<longleftrightarrow> (\<exists>b. c # cs = sub @ b)"
    by (metis append_eq_conv_conj append_take_drop_id)
  have "(\<exists>a b. c # cs = a @ sub @ b) \<longleftrightarrow> (\<exists>b. c # cs = sub @ b) \<or> (\<exists>a b. cs = a @ sub @ b)"
  proof
    assume "\<exists>a b. c # cs = a @ sub @ b"
    then obtain a b where ab: "c # cs = a @ sub @ b" by blast
    show "(\<exists>b. c # cs = sub @ b) \<or> (\<exists>a b. cs = a @ sub @ b)"
    proof (cases a)
      case Nil
      with ab show ?thesis by auto
    next
      case (Cons x a')
      with ab have "cs = a' @ sub @ b" by simp
      then show ?thesis by blast
    qed
  next
    assume "(\<exists>b. c # cs = sub @ b) \<or> (\<exists>a b. cs = a @ sub @ b)"
    then show "\<exists>a b. c # cs = a @ sub @ b"
    proof
      assume "\<exists>b. c # cs = sub @ b"
      then obtain b where "c # cs = [] @ sub @ b" by auto
      then show ?thesis by blast
    next
      assume "\<exists>a b. cs = a @ sub @ b"
      then obtain a b where "c # cs = (c # a) @ sub @ b" by auto
      then show ?thesis by blast
    qed
  qed
  with p Cons show ?case by simp
qed

lemma numeric_lines_acc:
  "numeric_lines ls acc =
     (case find (\<lambda>s. py_int s = None) (filter (\<lambda>s. s \<noteq> []) (map strip ls)) of
        Some s \<Rightarrow> Inl (ValueError s)
      | None \<Rightarrow> Inr (acc @ map (\<lambda>s. the (py_int s)) (filter (\<lambda>s. s \<noteq> []) (map strip ls))))"
proof (induction ls arbitrary: acc)
  case Nil
  show ?case by simp
next
  case (Cons l ls)
  show ?case
  proof (cases "strip l = []")
    case True
    then show ?thesis by (simp add: Cons.IH split: option.splits)
  next
    case False
    then show ?thesis
      by (cases "py_int (strip l)") (simp_all add: Cons.IH split: option.splits)
  qed
qed

lemma header_rule:
  "(if ls \<noteq> [] \<and> contains ''reacts'' (lower (ls ! 0)) then drop 1 ls else ls) = spec_data_lines ls"
  by (cases ls) (simp_all add: spec_data_lines_def)

text \<open>
  Claim C5. On an existing file the numeric reader drops the first line exactly when its
  lowercased text contains \<open>reacts\<close>; of the remaining lines the blank ones give
  nothing, the others are trimmed and read as integers in order; the first one that is not
  an integer makes the reader raise \<open>ValueError\<close>, which it does not catch.
\<close>

theorem numeric_reader_parses_lines:
  assumes "fs file_path = Some txt"
  shows "process_react_numeric fs file_path =
           (case find (\<lambda>s. py_int s = None) (spec_entries txt) of
              Some s \<Rightarrow> Inl (ValueError s)
            | None \<Rightarrow> Inr (map (\<lambda>s. the (py_int s)) (spec_entries txt)))"
  using assms
  by (simp add: process_react_numeric_def Let_def header_rule numeric_lines_acc spec_entries_def
      split: option.splits)

lemmas int_eval = py_int_def is_digit_def digits_value_def digit_val_def

lemma numeric_entries: "spec_entries numeric_text = [''1'', ''20'', ''+3'', ''1_0'']"
  by (simp add: spec_entries_def spec_data_lines_def readlines_def numeric_text_def nl_def
      lower_def case_defs strip_defs)

lemma bad_numeric_entries: "spec_entries bad_numeric_text = [''7'', ''1.5'', ''reacts'']"
  by (simp add: spec_entries_def spec_data_lines_def readlines_def bad_numeric_text_def nl_def
      lower_def case_defs strip_defs)

lemma int_values:
  "py_int ''1'' = Some 1" "py_int ''20'' = Some 20" "py_int ''+3'' = Some 3"
  "py_int ''1_0'' = Some 10" "py_int ''7'' = Some 7" "py_int ''1.5'' = None"
  "py_int ''-1'' = Some (- 1)"
  by (simp_all add: int_eval strip_defs)

theorem numeric_reader_parses_lines_witness:
  "[''./flu_NumReact.txt'' \<mapsto> numeric_text] ''./flu_NumReact.txt'' = Some numeric_text \<and>
   process_react_numeric [''./flu_NumReact.txt'' \<mapsto> numeric_text] ''./flu_NumReact.txt'' =
     Inr [1, 20, 3, 10] \<and>
   [''./flu_NumReact.txt'' \<mapsto> bad_numeric_text] ''./flu_NumReact.txt'' = Some bad_numeric_text \<and>
   process_react_numeric [''./flu_NumReact.txt'' \<mapsto> bad_numeric_text] ''./flu_NumReact.txt'' =
     Inl (ValueError ''1.5'')"
  using numeric_reader_parses_lines
          [of "[''./flu_NumReact.txt'' \<mapsto> numeric_text]" "''./flu_NumReact.txt''" numeric_text]
        numeric_reader_parses_lines
          [of "[''./flu_NumReact.txt'' \<mapsto> bad_numeric_text]" "''./flu_NumReact.txt''" bad_numeric_text]
  by (simp add: numeric_entries bad_numeric_entries int_values)

section \<open>The driver loop\<close>

lemma combine_acc:
  "combine p hs ls rs d = d @ map (\<lambda>(h, l, r). mk_record p h l r) (zip hs (zip ls rs))"
  by (induction p hs ls rs d rule: combine.induct) simp_all

lemmas dataset_defs = heavy_chains_def light_chains_def abort_error_def dataset_records_def
  dataset_messages_def missing_warning_def

lemma loop_body_char:
  "loop_body fs p st =
     (case abort_error fs p of
        Some e \<Rightarrow> Inl e
      | None \<Rightarrow> Inr (st\<lparr>all_data := all_data st @ dataset_records fs p,
                        stdout := stdout st @ dataset_messages fs p\<rparr>))"
proof (cases "fs (heavy_chain_file p)")
  case None
  then show ?thesis
    by (cases "fs (light_chain_file p)")
       (simp_all add: loop_body_def parse_fasta_universal_def dataset_defs)
next
  case (Some ht)
  show ?thesis
  proof (cases "fs (light_chain_file p)")
    case None
    with Some show ?thesis
      by (simp add: loop_body_def parse_fasta_universal_def dataset_defs)
  next
    case (Some lt)
    with \<open>fs (heavy_chain_file p) = Some ht\<close> show ?thesis
      by (cases "read_reactivity fs p")
         (auto simp: loop_body_def parse_fasta_universal_def dataset_defs combine_acc)
  qed
qed

lemma for_prefixes_char:
  "for_prefixes fs ps st =
     (case find (\<lambda>p. abort_error fs p \<noteq> None) ps of
        Some q \<Rightarrow> Inl (the (abort_error fs q))
      | None \<Rightarrow> Inr (st\<lparr>all_data := all_data st @ concat (map (dataset_records fs) ps),
                        stdout := stdout st @ concat (map (dataset_messages fs) ps)\<rparr>))"
proof (induction ps arbitrary: st)
  case Nil
  show ?case by simp
next
  case (Cons p ps)
  show ?case
  proof (cases "abort_error fs p")
    case None
    then show ?thesis
      by (simp add: loop_body_char Cons.IH split: option.splits)
  next
    case (Some e)
    then show ?thesis by (simp add: loop_body_char)
  qed
qed





lemma main_char:
  "main fs =
     (case find (\<lambda>p. abort_error fs p \<noteq> None) prefixes of
        Some q \<Rightarrow> Inl (the (abort_error fs q))
      | None \<Rightarrow>
          Inr (save (initial_state\<lparr>all_data := concat (map (dataset_records fs) prefixes),
                                  stdout := concat (map (dataset_messages fs) prefixes)\<rparr>)))"
  by (simp add: main_def for_prefixes_char initial_state_def split: option.splits)


lemmas path_eval = heavy_chain_file_def light_chain_file_def should_uppercase_def
  path_join_def data_directory_def read_reactivity_def

lemmas reader_eval = process_react_numeric_def process_react_binary_def readlines_def
  lower_def py_int_def is_digit_def digits_value_def digit_val_def




lemma find_append_skip:
  "\<not> P p \<Longrightarrow> find P (ps @ p # qs) = find P (ps @ qs)"
  by (induction ps) auto

lemma mismatch_no_records:
  assumes "heavy_chains fs p = Some hs" "light_chains fs p = Some ls"
    and "read_reactivity fs p = Inr rs"
    and "length hs \<noteq> length ls \<or> length hs \<noteq> length rs"
  shows "abort_error fs p = None" and "dataset_records fs p = []"
    and "dataset_messages fs p =
           [''Processing '' @ p @ '' data...'', mismatch_warning p,
            counts_line (length hs) (length ls) (length rs)]"
  using assms
  by (auto simp: abort_error_def dataset_records_def dataset_messages_def missing_warning_def
      heavy_chains_def light_chains_def)

text \<open>The decimal numeral \<open>str\<close> gives for a count states that count.\<close>

lemma digit_char_cases:
  assumes "k < 10"
  shows "digit_val (digit_char k) = k" and "is_digit (digit_char k)"
    and "digit_char k = CHR ''0'' \<longleftrightarrow> k = 0"
proof -
  from assms have "k \<in> {0, 1, 2, 3, 4, 5, 6, 7, 8, 9}" by auto
  then show "digit_val (digit_char k) = k" and "is_digit (digit_char k)"
    and "digit_char k = CHR ''0'' \<longleftrightarrow> k = 0"
    by (auto simp: digit_val_def digit_char_def is_digit_def)
qed

lemma decimal_value_snoc:
  "decimal_value (cs @ [d]) = 10 * decimal_value cs + (of_char d - 48)"
  by (induction cs) (simp_all add: algebra_simps)

lemma str_of_nat_nonempty: "str_of_nat n \<noteq> []"
  by (subst str_of_nat.simps) simp

lemma str_of_nat_value: "decimal_value (str_of_nat n) = n"
proof (induction n rule: str_of_nat.induct)
  case (1 n)
  show ?case
  proof (cases "n < 10")
    case True
    then have "of_char (digit_char n) - 48 = n"
      using digit_char_cases(1) [of n] by (simp add: digit_val_def)
    with True show ?thesis by (subst str_of_nat.simps) simp
  next
    case False
    have "of_char (digit_char (n mod 10)) - 48 = n mod 10"
      using digit_char_cases(1) [of "n mod 10"] by (simp add: digit_val_def)
    with False "1.IH" show ?thesis
      by (subst str_of_nat.simps) (simp add: decimal_value_snoc)
  qed
qed

lemma str_of_nat_digits: "list_all is_digit (str_of_nat n)"
proof (induction n rule: str_of_nat.induct)
  case (1 n)
  show ?case
  proof (cases "n < 10")
    case True
    then show ?thesis by (subst str_of_nat.simps) (simp add: digit_char_cases)
  next
    case False
    with "1.IH" show ?thesis
      by (subst str_of_nat.simps) (simp add: digit_char_cases)
  qed
qed

lemma str_of_nat_leading: "hd (str_of_nat n) = CHR ''0'' \<Longrightarrow> str_of_nat n = ''0''"
proof (induction n rule: str_of_nat.induct)
  case (1 n)
  show ?case
  proof (cases "n < 10")
    case True
    with "1.prems" have "digit_char n = CHR ''0''"
      by (subst (asm) str_of_nat.simps) simp
    with True have "n = 0" by (simp add: digit_char_cases)
    then show ?thesis by (subst str_of_nat.simps) (simp add: digit_char_def)
  next
    case False
    with "1.prems" have "hd (str_of_nat (n div 10)) = CHR ''0''"
      by (subst (asm) str_of_nat.simps) (simp add: str_of_nat_nonempty)
    with False "1.IH" have "str_of_nat (n div 10) = ''0''" by simp
    then have "decimal_value (str_of_nat (n div 10)) = 0" by simp
    then have "n div 10 = 0" by (simp add: str_of_nat_value)
    with False show ?thesis by simp
  qed
qed

lemma str_of_nat_decimal: "is_decimal_of n (str_of_nat n)"
  using str_of_nat_leading [of n]
  by (simp add: is_decimal_of_def str_of_nat_nonempty str_of_nat_digits str_of_nat_value)

text \<open>
  Claim C4. When both sequence files of a dataset parse and its reactivity file is read,
  and the three counts are not all equal, the pass of the loop for that dataset leaves
  \<open>all_data\<close> as it was and prints, after the progress line, the warning that names
  the dataset and a line that states the three counts, each as its decimal numeral; and
  the records of a run over a label list are the same with that dataset in the list as
  without it.
\<close>

theorem count_mismatch_skips_dataset:
  assumes "heavy_chains fs p = Some hs" "light_chains fs p = Some ls"
    and "read_reactivity fs p = Inr rs"
    and "length hs \<noteq> length ls \<or> length hs \<noteq> length rs"
  shows "loop_body fs p st =
           Inr (st\<lparr>stdout := stdout st @
                  [''Processing '' @ p @ '' data...'',
                   ''Warning: Mismatch in record counts for prefix '' @ [CHR 0x27] @ p @
                     [CHR 0x27] @ ''. Skipping.'',
                   ''  Heavy chains: '' @ str_of_nat (length hs) @
                     '', Light chains: '' @ str_of_nat (length ls) @
                     '', Reactivity values: '' @ str_of_nat (length rs)]\<rparr>) \<and>
         is_decimal_of (length hs) (str_of_nat (length hs)) \<and>
         is_decimal_of (length ls) (str_of_nat (length ls)) \<and>
         is_decimal_of (length rs) (str_of_nat (length rs)) \<and>
         map_sum id all_data (for_prefixes fs (ps @ p # qs) st) =
         map_sum id all_data (for_prefixes fs (ps @ qs) st)"
proof -
  note m = mismatch_no_records [OF assms]
  have a: "loop_body fs p st =
           Inr (st\<lparr>stdout := stdout st @
                  [''Processing '' @ p @ '' data...'',
                   ''Warning: Mismatch in record counts for prefix '' @ [CHR 0x27] @ p @
                     [CHR 0x27] @ ''. Skipping.'',
                   ''  Heavy chains: '' @ str_of_nat (length hs) @
                     '', Light chains: '' @ str_of_nat (length ls) @
                     '', Reactivity values: '' @ str_of_nat (length rs)]\<rparr>)"
    by (simp add: loop_body_char m mismatch_warning_def counts_line_def)
  have f: "find (\<lambda>q. abort_error fs q \<noteq> None) (ps @ p # qs) =
           find (\<lambda>q. abort_error fs q \<noteq> None) (ps @ qs)"
    by (rule find_append_skip) (simp add: m)
  have b: "map_sum id all_data (for_prefixes fs (ps @ p # qs) st) =
           map_sum id all_data (for_prefixes fs (ps @ qs) st)"
    by (simp only: for_prefixes_char f) (simp add: m split: option.splits)
  from a b str_of_nat_decimal show ?thesis by simp
qed

lemma replicate_12: "replicate 12 x = [x, x, x, x, x, x, x, x, x, x, x, x]"
  by (simp add: eval_nat_numeral)

lemma mismatch_chains:
  "heavy_chains mismatch_fs ''flu'' = Some (replicate 12 ''ACGT'')"
  "light_chains mismatch_fs ''flu'' = Some [''GGG'', ''TTT'']"
  "read_reactivity mismatch_fs ''flu'' = Inr [3]"
  by (simp_all add: heavy_chains_def light_chains_def mismatch_fs_def path_eval reader_eval
      parse_eval replicate_12 Let_def)

lemma mismatch_mouse_only:
  "map_sum id all_data (for_prefixes mismatch_fs ([] @ [''mouse'']) initial_state) =
     Inr [mk_record ''mouse'' ''AC'' ''TT'' 4]"
  by (simp add: for_prefixes_char abort_error_def dataset_records_def heavy_chains_def
      light_chains_def mismatch_fs_def initial_state_def path_eval reader_eval parse_eval)

theorem count_mismatch_skips_dataset_witness:
  "heavy_chains mismatch_fs ''flu'' = Some (replicate 12 ''ACGT'') \<and>
   light_chains mismatch_fs ''flu'' = Some [''GGG'', ''TTT''] \<and>
   read_reactivity mismatch_fs ''flu'' = Inr [3] \<and>
   loop_body mismatch_fs ''flu'' initial_state =
     Inr (initial_state\<lparr>stdout :=
            [''Processing flu data...'',
             ''Warning: Mismatch in record counts for prefix '' @ [CHR 0x27] @ ''flu'' @
               [CHR 0x27] @ ''. Skipping.'',
             ''  Heavy chains: 12, Light chains: 2, Reactivity values: 1'']\<rparr>) \<and>
   is_decimal_of 12 ''12'' \<and>
   map_sum id all_data (for_prefixes mismatch_fs ([] @ ''flu'' # [''mouse'']) initial_state) =
     Inr [mk_record ''mouse'' ''AC'' ''TT'' 4] \<and>
   map_sum id all_data (for_prefixes mismatch_fs ([] @ [''mouse'']) initial_state) =
     Inr [mk_record ''mouse'' ''AC'' ''TT'' 4]"
proof -
  have c: "length (replicate 12 ''ACGT'') \<noteq> length [''GGG'', ''TTT''] \<or>
           length (replicate 12 ''ACGT'') \<noteq> length [3 :: int]"
    by simp
  note t = count_mismatch_skips_dataset [OF mismatch_chains c, of initial_state "[]" "[''mouse'']"]
  have n: "str_of_nat 12 = ''12''" "str_of_nat (Suc (Suc 0)) = ''2''" "str_of_nat (Suc 0) = ''1''"
    by (simp_all add: str_of_nat.simps digit_char_def)
  have a: "loop_body mismatch_fs ''flu'' initial_state =
     Inr (initial_state\<lparr>stdout :=
            [''Processing flu data...'',
             ''Warning: Mismatch in record counts for prefix '' @ [CHR 0x27] @ ''flu'' @
               [CHR 0x27] @ ''. Skipping.'',
             ''  Heavy chains: 12, Light chains: 2, Reactivity values: 1'']\<rparr>)"
    using conjunct1 [OF t] by (simp add: initial_state_def n)
  have d: "is_decimal_of 12 ''12''"
    using conjunct1 [OF conjunct2 [OF t]] by (simp add: n)
  have b: "map_sum id all_data (for_prefixes mismatch_fs ([] @ ''flu'' # [''mouse'']) initial_state) =
     Inr [mk_record ''mouse'' ''AC'' ''TT'' 4]"
    using conjunct2 [OF conjunct2 [OF conjunct2 [OF conjunct2 [OF t]]]]
    by (simp only: mismatch_mouse_only)
  show ?thesis by (intro conjI mismatch_chains a d b mismatch_mouse_only)
qed

section \<open>The whole run\<close>

lemma skipped_no_records:
  "skipped fs p \<Longrightarrow> abort_error fs p = None \<and> dataset_records fs p = []"
  by (auto simp: skipped_def abort_error_def dataset_records_def
      split: option.splits sum.splits)

lemma all_skipped:
  "list_all (skipped fs) ps \<Longrightarrow>
     find (\<lambda>p. abort_error fs p \<noteq> None) ps = None \<and>
     concat (map (dataset_records fs) ps) = []"
  by (induction ps) (auto simp: skipped_no_records)

lemma str_of_nat_0: "str_of_nat 0 = ''0''"
  by (simp add: str_of_nat.simps digit_char_def)

text \<open>
  Claim C10. When the run ends normally, exactly one file has been written: the output
  file, holding the serialization of the accumulated record list, and the last line
  printed reports the number of records. In particular, when every one of the six datasets
  is skipped, the run still ends normally, the output file holds the empty array
  \<open>[]\<close> and the last line reports zero records.
\<close>

theorem output_written_once:
  "(\<forall>st. main fs = Inr st \<longrightarrow>
      written st = [(output_filename, json_dump (all_data st))] \<and>
      last (stdout st) = ''Total records processed: '' @ str_of_nat (length (all_data st))) \<and>
   (list_all (skipped fs) prefixes \<longrightarrow>
      (\<exists>st. main fs = Inr st \<and> all_data st = [] \<and>
         written st = [(output_filename, ''[]'')] \<and>
         last (stdout st) = ''Total records processed: 0''))"
proof (intro conjI allI impI)
  fix st
  assume m: "main fs = Inr st"
  then obtain st0 where f: "for_prefixes fs prefixes initial_state = Inr st0"
    and st: "st = save st0"
    by (auto simp: main_def split: sum.splits)
  from f have w: "written st0 = []"
    by (auto simp: for_prefixes_char initial_state_def split: option.splits)
  from st w show "written st = [(output_filename, json_dump (all_data st))]"
    by (simp add: save_def)
  from st show "last (stdout st) =
      ''Total records processed: '' @ str_of_nat (length (all_data st))"
    by (simp add: save_def)
next
  assume "list_all (skipped fs) prefixes"
  from all_skipped [OF this]
  have a: "find (\<lambda>p. abort_error fs p \<noteq> None) prefixes = None"
    and b: "concat (map (dataset_records fs) prefixes) = []"
    by blast+
  have "main fs = Inr (save (initial_state\<lparr>all_data := [],
          stdout := concat (map (dataset_messages fs) prefixes)\<rparr>))"
    unfolding main_char a b by simp
  then show "\<exists>st. main fs = Inr st \<and> all_data st = [] \<and>
         written st = [(output_filename, ''[]'')] \<and>
         last (stdout st) = ''Total records processed: 0''"
    by (simp add: save_def initial_state_def json_dump_def str_of_nat_0)
qed

lemma empty_skipped: "list_all (skipped Map.empty) prefixes"
  by (simp add: prefixes_def skipped_def heavy_chains_def)

lemma two_record_run:
  "main two_record_fs =
     Inr (save (initial_state\<lparr>all_data := [mk_record ''flu'' ''AAA'' ''GGG'' 12,
                                           mk_record ''flu'' ''CCC'' ''TTT'' (- 2)],
                             stdout := concat (map (dataset_messages two_record_fs) prefixes)\<rparr>))"
proof -
  have a: "find (\<lambda>p. abort_error two_record_fs p \<noteq> None) prefixes = None"
    by (simp add: prefixes_def abort_error_def heavy_chains_def light_chains_def
        two_record_fs_def path_eval reader_eval parse_eval)
  have b: "concat (map (dataset_records two_record_fs) prefixes) =
           [mk_record ''flu'' ''AAA'' ''GGG'' 12, mk_record ''flu'' ''CCC'' ''TTT'' (- 2)]"
    by (simp add: prefixes_def dataset_records_def heavy_chains_def light_chains_def
        two_record_fs_def path_eval reader_eval parse_eval)
  show ?thesis unfolding main_char a b by simp
qed

lemma two_record_dump:
  "json_dump [mk_record ''flu'' ''AAA'' ''GGG'' 12, mk_record ''flu'' ''CCC'' ''TTT'' (- 2)] =
     two_record_json"
  by (simp add: json_dump_def json_of_dict_def json_string_def json_escape_char_def
      mk_record_def str_of_int_def str_of_nat.simps digit_char_def two_record_json_def
      dq_def nl_def)

theorem output_written_once_witness:
  "list_all (skipped Map.empty) prefixes \<and>
   (\<exists>st. main Map.empty = Inr st \<and> all_data st = [] \<and>
      written st = [(output_filename, ''[]'')] \<and>
      written st = [(output_filename, json_dump (all_data st))] \<and>
      last (stdout st) = ''Total records processed: 0'') \<and>
   (\<exists>st. main two_record_fs = Inr st \<and>
      all_data st = [mk_record ''flu'' ''AAA'' ''GGG'' 12,
                     mk_record ''flu'' ''CCC'' ''TTT'' (- 2)] \<and>
      written st = [(''consolidated_data_boughter_2020.json'', two_record_json)] \<and>
      last (stdout st) = ''Total records processed: 2'')"
proof -
  from mp [OF conjunct2 [OF output_written_once [of Map.empty]] empty_skipped]
  obtain st where m: "main Map.empty = Inr st" and d: "all_data st = []"
    and w: "written st = [(output_filename, ''[]'')]"
    and l: "last (stdout st) = ''Total records processed: 0''"
    by blast
  from conjunct1 [OF output_written_once [of Map.empty]] m
  have "written st = [(output_filename, json_dump (all_data st))]" by blast
  with m d w l have e: "\<exists>st. main Map.empty = Inr st \<and> all_data st = [] \<and>
      written st = [(output_filename, ''[]'')] \<and>
      written st = [(output_filename, json_dump (all_data st))] \<and>
      last (stdout st) = ''Total records processed: 0''"
    by blast
  let ?st = "save (initial_state\<lparr>all_data := [mk_record ''flu'' ''AAA'' ''GGG'' 12,
                                          mk_record ''flu'' ''CCC'' ''TTT'' (- 2)],
                     stdout := concat (map (dataset_messages two_record_fs) prefixes)\<rparr>)"
  have m2: "main two_record_fs = Inr ?st" by (rule two_record_run)
  have d2: "all_data ?st = [mk_record ''flu'' ''AAA'' ''GGG'' 12,
                            mk_record ''flu'' ''CCC'' ''TTT'' (- 2)]"
    by (simp add: save_def)
  from conjunct1 [OF output_written_once [of two_record_fs]] m2
  have w2: "written ?st = [(output_filename, json_dump (all_data ?st))]"
    and l2: "last (stdout ?st) =
      ''Total records processed: '' @ str_of_nat (length (all_data ?st))"
    by blast+
  from w2 have w3: "written ?st = [(''consolidated_data_boughter_2020.json'', two_record_json)]"
    unfolding d2 two_record_dump output_filename_def .
  have "str_of_nat (length [mk_record ''flu'' ''AAA'' ''GGG'' 12,
                            mk_record ''flu'' ''CCC'' ''TTT'' (- 2)]) = ''2''"
    by (simp add: str_of_nat.simps digit_char_def)
  with l2 have l3: "last (stdout ?st) = ''Total records processed: 2''"
    unfolding d2 by simp
  from m2 d2 w3 l3 have "\<exists>st. main two_record_fs = Inr st \<and>
      all_data st = [mk_record ''flu'' ''AAA'' ''GGG'' 12,
                     mk_record ''flu'' ''CCC'' ''TTT'' (- 2)] \<and>
      written st = [(''consolidated_data_boughter_2020.json'', two_record_json)] \<and>
      last (stdout st) = ''Total records processed: 2''"
    by blast
  with e empty_skipped show ?thesis by blast
qed

lemma binary_values:
  assumes "process_react_binary fs file_path = Inr rs" and "v \<in> set rs"
  shows "v = 0 \<or> v = 4"
proof -
  from assms(1) obtain t where "rs = List.map_filter spec_binary_code (readlines t)"
    by (auto simp: process_react_binary_def binary_lines_acc split: option.splits)
  with assms(2) obtain line where "spec_binary_code line = Some v"
    by (auto simp: List.map_filter_def)
  then show ?thesis by (auto simp: spec_binary_code_def split: if_splits)
qed

lemma numeric_values:
  assumes "process_react_numeric fs file_path = Inr rs" and "v \<in> set rs"
  shows "\<exists>t s. fs file_path = Some t \<and> s \<in> set (spec_entries t) \<and> py_int s = Some v"
proof -
  from assms(1) obtain t where t: "fs file_path = Some t"
    by (auto simp: process_react_numeric_def split: option.splits)
  with assms(1) have
    r: "(case find (\<lambda>s. py_int s = None) (spec_entries t) of
           Some s \<Rightarrow> Inl (ValueError s)
         | None \<Rightarrow> Inr (map (\<lambda>s. the (py_int s)) (spec_entries t))) = Inr rs"
    by (simp add: process_react_numeric_def Let_def header_rule numeric_lines_acc
        spec_entries_def split: option.splits)
  then have n: "find (\<lambda>s. py_int s = None) (spec_entries t) = None"
    and rs: "rs = map (\<lambda>s. the (py_int s)) (spec_entries t)"
    by (auto split: option.splits)
  from rs assms(2) obtain s where s: "s \<in> set (spec_entries t)" and v: "v = the (py_int s)"
    by auto
  from n s have "py_int s \<noteq> None" by (auto simp: find_None_iff)
  with v have "py_int s = Some v" by auto
  with t s show ?thesis by blast
qed

lemma dataset_record_value:
  assumes "r \<in> set (dataset_records fs p)"
  shows "\<exists>h l v rs. r = mk_record p h l v \<and> read_reactivity fs p = Inr rs \<and> v \<in> set rs"
proof -
  from assms obtain hs ls rs where rr': "Inr rs = read_reactivity fs p"
    and r: "r \<in> set (map (\<lambda>(h, l, v). mk_record p h l v) (zip hs (zip ls rs)))"
    by (simp add: dataset_records_def split: option.splits sum.splits if_splits) blast
  from rr' have rr: "read_reactivity fs p = Inr rs" by simp
  from r obtain h l v where e: "r = mk_record p h l v"
    and z: "(h, l, v) \<in> set (zip hs (zip ls rs))"
    by auto
  from z have "(l, v) \<in> set (zip ls rs)" by (rule set_zip_rightD)
  then have "v \<in> set rs" by (rule set_zip_rightD)
  with rr e show ?thesis by blast
qed

lemma negative_run:
  "main negative_fs =
     Inr (save (initial_state\<lparr>all_data := [mk_record ''flu'' ''AAA'' ''GGG'' (- 1)],
                             stdout := concat (map (dataset_messages negative_fs) prefixes)\<rparr>))"
proof -
  have a: "find (\<lambda>p. abort_error negative_fs p \<noteq> None) prefixes = None"
    by (simp add: prefixes_def abort_error_def heavy_chains_def light_chains_def negative_fs_def
        path_eval reader_eval parse_eval)
  have b: "concat (map (dataset_records negative_fs) prefixes) =
           [mk_record ''flu'' ''AAA'' ''GGG'' (- 1)]"
    by (simp add: prefixes_def dataset_records_def heavy_chains_def light_chains_def
        negative_fs_def path_eval reader_eval parse_eval)
  show ?thesis unfolding main_char a b by simp
qed

text \<open>
  Claim C8, as stated, fails: a numeric reactivity file with the line \<open>-1\<close> gives an
  output record whose \<open>NumReact\<close> is \<open>-1\<close>.
\<close>

theorem negative_reactivity_in_output:
  "map_sum id all_data (main negative_fs) = Inr [mk_record ''flu'' ''AAA'' ''GGG'' (- 1)] \<and>
   map_of (mk_record ''flu'' ''AAA'' ''GGG'' (- 1)) ''NumReact'' = Some (JInt (- 1))"
  by (simp add: negative_run save_def mk_record_def)

text \<open>
  Claim C8, amended. In every output record \<open>NumReact\<close> is an integer. For the two
  datasets read by the binary reader it is 0 or 4. For the datasets read by the numeric
  reader it is the integer written on a line of the dataset's numeric reactivity file,
  whatever its sign: the reader checks no range.
\<close>

theorem reactivity_values_of_output:
  assumes "main fs = Inr st" and "r \<in> set (all_data st)"
  shows "\<exists>p h l v. p \<in> set prefixes \<and> r = mk_record p h l v \<and>
           (if p \<in> set [''mouse'', ''plos_hiv''] then v = 0 \<or> v = 4
            else (\<exists>t s. fs (numeric_file p) = Some t \<and> s \<in> set (spec_entries t) \<and>
                    py_int s = Some v))"
proof -
  from assms(1) have "all_data st = concat (map (dataset_records fs) prefixes)"
    by (auto simp: main_char save_def split: option.splits)
  with assms(2) obtain p where p: "p \<in> set prefixes" and "r \<in> set (dataset_records fs p)"
    by auto
  then obtain h l v rs where r: "r = mk_record p h l v"
    and rr: "read_reactivity fs p = Inr rs" and v: "v \<in> set rs"
    using dataset_record_value by blast
  show ?thesis
  proof (cases "p \<in> set [''mouse'', ''plos_hiv'']")
    case True
    with rr have "process_react_binary fs (path_join data_directory (p @ ''_YN.txt'')) = Inr rs"
      by (simp add: read_reactivity_def)
    from binary_values [OF this v] have "v = 0 \<or> v = 4" .
    with True p r show ?thesis
      by (intro exI [of _ p] exI [of _ h] exI [of _ l] exI [of _ v]) simp
  next
    case False
    with rr have "process_react_numeric fs (numeric_file p) = Inr rs"
      by (simp add: read_reactivity_def numeric_file_def)
    from numeric_values [OF this v]
    have "\<exists>t s. fs (numeric_file p) = Some t \<and> s \<in> set (spec_entries t) \<and> py_int s = Some v" .
    with False p r show ?thesis
      by (intro exI [of _ p] exI [of _ h] exI [of _ l] exI [of _ v]) simp
  qed
qed

theorem reactivity_values_of_output_witness:
  "(\<exists>st. main negative_fs = Inr st \<and>
      mk_record ''flu'' ''AAA'' ''GGG'' (- 1) \<in> set (all_data st)) \<and>
   (\<exists>p h l v. p \<in> set prefixes \<and> mk_record ''flu'' ''AAA'' ''GGG'' (- 1) = mk_record p h l v \<and>
      (if p \<in> set [''mouse'', ''plos_hiv''] then v = 0 \<or> v = 4
       else (\<exists>t s. negative_fs (numeric_file p) = Some t \<and> s \<in> set (spec_entries t) \<and>
               py_int s = Some v)))"
proof -
  let ?st = "save (initial_state\<lparr>all_data := [mk_record ''flu'' ''AAA'' ''GGG'' (- 1)],
                   stdout := concat (map (dataset_messages negative_fs) prefixes)\<rparr>)"
  have m: "main negative_fs = Inr ?st" by (rule negative_run)
  have i: "mk_record ''flu'' ''AAA'' ''GGG'' (- 1) \<in> set (all_data ?st)"
    by (simp add: save_def)
  from reactivity_values_of_output [OF m i] m i show ?thesis by blast
qed

lemma missing_sequence_file_skips:
  assumes "fs (heavy_chain_file p) = None \<or> fs (light_chain_file p) = None"
  shows "loop_body fs p st =
           Inr (st\<lparr>stdout := stdout st @ [''Processing '' @ p @ '' data...''] @
                  missing_warning fs (heavy_chain_file p) @
                  missing_warning fs (light_chain_file p)\<rparr>)"
  using assms
  by (auto simp: loop_body_char abort_error_def dataset_records_def dataset_messages_def
      heavy_chains_def light_chains_def split: option.splits)

lemma missing_reactivity_file_aborts:
  assumes "fs (heavy_chain_file p) = Some ht" and "fs (light_chain_file p) = Some lt"
    and "fs (if p \<in> set [''mouse'', ''plos_hiv'']
             then path_join data_directory (p @ ''_YN.txt'')
             else path_join data_directory (p @ ''_NumReact.txt'')) = None"
  shows "loop_body fs p st =
           Inl (FileNotFoundError
                  (if p \<in> set [''mouse'', ''plos_hiv'']
                   then path_join data_directory (p @ ''_YN.txt'')
                   else path_join data_directory (p @ ''_NumReact.txt'')))"
  using assms
  by (auto simp: loop_body_char abort_error_def heavy_chains_def light_chains_def
      read_reactivity_def process_react_binary_def process_react_numeric_def
      split: if_splits)

text \<open>
  Claim C1 says that a missing reactivity file, like a missing sequence file, makes the
  run skip the dataset and go on. The two lemmas above give what the loop does: a missing
  sequence file is skipped with a warning, a missing reactivity file raises
  \<open>FileNotFoundError\<close> out of the loop. Here the run is evaluated on a file system
  where the first dataset has both sequence files and no reactivity file: it ends with
  the exception, and no output file is written.
\<close>

theorem missing_reactivity_file_is_fatal:
  "no_reactivity_fs ''./flu_fastaH.txt'' \<noteq> None \<and>
   no_reactivity_fs ''./flu_fastaL.txt'' \<noteq> None \<and>
   no_reactivity_fs ''./flu_NumReact.txt'' = None \<and>
   main no_reactivity_fs = Inl (FileNotFoundError ''./flu_NumReact.txt'')"
proof -
  have "find (\<lambda>p. abort_error no_reactivity_fs p \<noteq> None) prefixes = Some ''flu''"
    by (simp add: prefixes_def abort_error_def heavy_chains_def light_chains_def
        no_reactivity_fs_def path_eval reader_eval)
  moreover have "abort_error no_reactivity_fs ''flu'' =
      Some (FileNotFoundError ''./flu_NumReact.txt'')"
    by (simp add: abort_error_def heavy_chains_def light_chains_def
        no_reactivity_fs_def path_eval reader_eval)
  ultimately have "main no_reactivity_fs = Inl (FileNotFoundError ''./flu_NumReact.txt'')"
    by (simp add: main_char)
  then show ?thesis by (simp add: no_reactivity_fs_def nl_def)
qed

end
